theory Spec2Isabelle
  imports Main "HOL-Library.Sublist" "HOL-Library.AList" "HOL-Library.Word"
    "HOL-Library.Signed_Division"
begin

section \<open>State migration of the vsphere_virtual_machine resource\<close>

text \<open>
  A shallow embedding of \<^verbatim>\<open>vsphere/resource_vsphere_virtual_machine_migrate.go\<close>:
  the dispatcher \<^verbatim>\<open>resourceVSphereVirtualMachineMigrateState\<close> and the two steps
  \<^verbatim>\<open>migrateVSphereVirtualMachineStateV1\<close> (version 0 to 1) and
  \<^verbatim>\<open>migrateVSphereVirtualMachineStateV2\<close> (version 1 to 2).

  Go strings are byte sequences and are modelled as \<^typ>\<open>string\<close>. A Go
  \<^verbatim>\<open>map[string]string\<close> is modelled by the list of its entries; a lookup is
  \<^const>\<open>map_of\<close>, an assignment \<^verbatim>\<open>m[k] = v\<close> is \<^const>\<open>AList.update\<close>, and a
  \<^verbatim>\<open>range\<close> loop is a \<^const>\<open>fold\<close> over the entries, so that every iteration order
  Go may choose is the order of some entry list. A nil map is \<^const>\<open>None\<close>.
\<close>

subsection \<open>The Go library functions the file calls\<close>

type_synonym attrs = "(string \<times> string) list"

text \<open>\<^verbatim>\<open>m[k]\<close> on a map that may be nil: the zero value \<^verbatim>\<open>""\<close> for a missing key.\<close>

definition attr_get :: "attrs option \<Rightarrow> string \<Rightarrow> string" where
  "attr_get m k = (case m of None \<Rightarrow> [] | Some al \<Rightarrow>
     (case map_of al k of None \<Rightarrow> [] | Some v \<Rightarrow> v))"

text \<open>\<^verbatim>\<open>v, ok := m[k]\<close> on a map that may be nil: \<^const>\<open>None\<close> when \<^verbatim>\<open>ok\<close> is false.\<close>

definition attr_lookup :: "attrs option \<Rightarrow> string \<Rightarrow> string option" where
  "attr_lookup m k = (case m of None \<Rightarrow> None | Some al \<Rightarrow> map_of al k)"

text \<open>\<^verbatim>\<open>strings.HasPrefix(s, p)\<close> and \<^verbatim>\<open>strings.HasSuffix(s, p)\<close>.\<close>

definition HasPrefix :: "string \<Rightarrow> string \<Rightarrow> bool" where
  "HasPrefix s p = prefix p s"

definition HasSuffix :: "string \<Rightarrow> string \<Rightarrow> bool" where
  "HasSuffix s p = suffix p s"

text \<open>
  \<^verbatim>\<open>strings.Split(s, sep)\<close> for a separator of one byte: the pieces between the
  separators, one more than there are separators (\<^verbatim>\<open>Split("", ".")\<close> is \<^verbatim>\<open>[""]\<close>).
\<close>

fun Split :: "string \<Rightarrow> char \<Rightarrow> string list" where
  "Split [] sep = [[]]"
| "Split (c # cs) sep =
     (if c = sep then [] # Split cs sep
      else (case Split cs sep of [] \<Rightarrow> [[c]] | p # ps \<Rightarrow> (c # p) # ps))"

text \<open>\<^verbatim>\<open>strings.Join(parts, sep)\<close>.\<close>

fun Join :: "string list \<Rightarrow> string \<Rightarrow> string" where
  "Join [] sep = []"
| "Join [p] sep = p"
| "Join (p # q # ps) sep = p @ sep @ Join (q # ps) sep"

subsection \<open>The state record\<close>

text \<open>
  \<^verbatim>\<open>terraform.InstanceState\<close>: the fields this file reads and writes. The record is
  extensible, and every function below is stated on the record scheme, so the other
  fields of the Go struct (\<^verbatim>\<open>Meta\<close>, \<^verbatim>\<open>Ephemeral\<close>, \<^verbatim>\<open>Tainted\<close>) ride along
  untouched in the extension part.
\<close>

record instance_state =
  ID :: string
  Attributes :: "attrs option"

text \<open>
  Modelled from the spec: \<^verbatim>\<open>InstanceState.Empty\<close> is a method of the Terraform
  library and is not part of the source file. The spec describes an empty record as one
  that "is present but carries no attributes".
\<close>

definition Empty :: "'a instance_state_scheme \<Rightarrow> bool" where
  "Empty s = (case Attributes s of None \<Rightarrow> True | Some al \<Rightarrow> al = [])"

subsection \<open>Version 0 to 1\<close>

text \<open>The keys \<^verbatim>\<open>disk.<index>.size\<close> and \<^verbatim>\<open>disk.<index>.controller_type\<close> of an
  index, used to state what the step does. The key has three components separated by
  dots when the index has no dot.\<close>

definition disk_size_key :: "string \<Rightarrow> string" where
  "disk_size_key X = ''disk.'' @ X @ ''.size''"

definition controller_type_key :: "string \<Rightarrow> string" where
  "controller_type_key X = ''disk.'' @ X @ ''.controller_type''"

text \<open>The body of the \<^verbatim>\<open>range\<close> loop of lines 163 to 174, for one key \<open>k\<close>.\<close>

definition v1_disk_key :: "string \<Rightarrow> attrs \<Rightarrow> attrs" where
  "v1_disk_key k m =
     (if HasPrefix k ''disk.'' \<and> HasSuffix k ''.size'' then
        (let diskParts = Split k CHR ''.'' in
         if length diskParts \<noteq> 3 then m
         else
           (let s = Join [diskParts ! 0, diskParts ! 1, ''controller_type''] ''.'' in
            (case map_of m s of None \<Rightarrow> AList.update s ''scsi'' m | Some _ \<Rightarrow> m)))
      else m)"

text \<open>
  Lines 155 to 174 on a non-nil map. The loop ranges over the keys of the map as it is
  after the two flags have been set; the keys the loop itself adds end in
  \<^verbatim>\<open>controller_type\<close> and would be skipped if Go produced them.
\<close>

definition v1_attributes :: "attrs \<Rightarrow> attrs" where
  "v1_attributes m =
     (let m1 = (if attr_get (Some m) ''skip_customization'' = []
                then AList.update ''skip_customization'' ''false'' m else m);
          m2 = (if attr_get (Some m1) ''enable_disk_uuid'' = []
                then AList.update ''enable_disk_uuid'' ''false'' m1 else m1)
      in fold v1_disk_key (map fst m2) m2)"

text \<open>
  \<^verbatim>\<open>migrateVSphereVirtualMachineStateV1\<close>. The Go function mutates the record and
  returns an error; the model returns the record after the call and the error
  (\<^const>\<open>None\<close> for \<^verbatim>\<open>nil\<close>). The \<^verbatim>\<open>meta\<close> argument is not used by the Go function
  and is left out.
\<close>

definition migrateVSphereVirtualMachineStateV1 ::
  "'a instance_state_scheme \<Rightarrow> 'a instance_state_scheme \<times> string option" where
  "migrateVSphereVirtualMachineStateV1 is =
     (if Empty is \<or> Attributes is = None then (is, None)
      else (case Attributes is of
              None \<Rightarrow> (is, None)
            | Some m \<Rightarrow> (is\<lparr>Attributes := Some (v1_attributes m)\<rparr>, None)))"

subsection \<open>Numbers as decimal strings\<close>

datatype num_error = ErrSyntax | ErrRange

definition is_digit :: "char \<Rightarrow> bool" where
  "is_digit c = (48 \<le> (of_char c :: nat) \<and> (of_char c :: nat) \<le> 57)"

definition digit_val :: "char \<Rightarrow> int" where
  "digit_val c = of_char c - 48"

definition maxUint64 :: int where
  "maxUint64 = 18446744073709551615"

text \<open>
  The digit loop of \<^verbatim>\<open>strconv.ParseUint(s, 10, 64)\<close>: a byte that is not a digit is
  a syntax error with value 0; an overflow is a range error with the largest value, and
  is reported as soon as it happens, before the remaining bytes are looked at.
\<close>

fun ParseUint_digits :: "int \<Rightarrow> string \<Rightarrow> int \<times> num_error option" where
  "ParseUint_digits n [] = (n, None)"
| "ParseUint_digits n (c # cs) =
     (if \<not> is_digit c then (0, Some ErrSyntax)
      else if maxUint64 div 10 + 1 \<le> n then (maxUint64, Some ErrRange)
      else (let n1 = n * 10 + digit_val c in
            if maxUint64 < n1 then (maxUint64, Some ErrRange)
            else ParseUint_digits n1 cs))"

definition ParseUint :: "string \<Rightarrow> int \<times> num_error option" where
  "ParseUint s = (if s = [] then (0, Some ErrSyntax) else ParseUint_digits 0 s)"

text \<open>
  \<^verbatim>\<open>strconv.Atoi\<close> where \<^verbatim>\<open>int\<close> has 64 bits, as \<^verbatim>\<open>strconv.ParseInt(s, 10, 0)\<close>
  computes it: an optional sign, then digits; 0 on a syntax error, and the nearest
  bound of the range together with a range error when the number does not fit.
\<close>

definition Atoi :: "string \<Rightarrow> int \<times> num_error option" where
  "Atoi s =
     (case s of
        [] \<Rightarrow> (0, Some ErrSyntax)
      | c # cs \<Rightarrow>
          (let neg = (c = CHR ''-'');
               (un, err) = ParseUint (if c = CHR ''+'' \<or> c = CHR ''-'' then cs else s)
           in if err = Some ErrSyntax then (0, err)
              else if \<not> neg \<and> 2 ^ 63 \<le> un then (2 ^ 63 - 1, Some ErrRange)
              else if neg \<and> 2 ^ 63 < un then (- (2 ^ 63), Some ErrRange)
              else (if neg then - un else un, None)))"

text \<open>\<^verbatim>\<open>fmt.Sprintf("%v", n)\<close> for an \<^verbatim>\<open>int\<close>: the decimal digits, after a minus sign
  when \<open>n\<close> is negative.\<close>

fun nat_digits :: "nat \<Rightarrow> string" where
  "nat_digits n =
     (if n < 10 then [''0123456789'' ! n]
      else nat_digits (n div 10) @ [''0123456789'' ! (n mod 10)])"

declare nat_digits.simps [simp del]

definition Itoa :: "int \<Rightarrow> string" where
  "Itoa n = (if n < 0 then CHR ''-'' # nat_digits (nat (- n)) else nat_digits (nat n))"

text \<open>The conversions \<^verbatim>\<open>int32(x)\<close> of an \<^verbatim>\<open>int\<close>, which keeps the low 32 bits, and
  the range of a 64-bit \<^verbatim>\<open>int\<close>.\<close>

definition int32 :: "int \<Rightarrow> 32 word" where
  "int32 x = word_of_int x"

definition wrap64 :: "int \<Rightarrow> int" where
  "wrap64 x = signed_take_bit 63 x"

subsection \<open>The hardware device list\<close>

text \<open>
  A device of \<^verbatim>\<open>props.Config.Hardware.Device\<close>: its key, the key of its controller,
  and whether it implements \<^verbatim>\<open>types.BaseVirtualSCSIController\<close> (then with its bus
  number). All three numbers are \<^verbatim>\<open>int32\<close>.
\<close>

datatype device_type = VirtualSCSIController (BusNumber: "32 word") | OtherDevice

record virtual_device =
  Key :: "32 word"
  ControllerKey :: "32 word"
  DeviceType :: device_type

text \<open>\<^verbatim>\<open>VirtualDeviceList.FindByKey\<close>: the first device with the key, or nil.\<close>

definition FindByKey :: "virtual_device list \<Rightarrow> 32 word \<Rightarrow> virtual_device option" where
  "FindByKey l key = find (\<lambda>device. Key device = key) l"

text \<open>
  \<^verbatim>\<open>regexp.MustCompile("disk\\.[0-9]+\\.key").MatchString(k)\<close>. The expression is
  not anchored: it matches when some part of \<open>k\<close> has the shape.
\<close>

definition disk_key_here :: "string \<Rightarrow> bool" where
  "disk_key_here s =
     (prefix ''disk.'' s \<and>
      (let r = drop 5 s
       in takeWhile is_digit r \<noteq> [] \<and> prefix ''.key'' (dropWhile is_digit r)))"

fun disk_key_MatchString :: "string \<Rightarrow> bool" where
  "disk_key_MatchString [] = False"
| "disk_key_MatchString (c # cs) = (disk_key_here (c # cs) \<or> disk_key_MatchString cs)"

subsection \<open>Version 1 to 2\<close>

text \<open>The body of the \<^verbatim>\<open>range\<close> loop of lines 93 to 112, for one entry.\<close>

definition v2_scan_entry :: "virtual_device list \<Rightarrow> string \<times> string \<Rightarrow> int \<Rightarrow> int" where
  "v2_scan_entry l kv maxBus =
     (case kv of (k, v) \<Rightarrow>
        if \<not> disk_key_MatchString k then maxBus
        else
          (let key = fst (Atoi v) in
           if key < 1 then maxBus
           else
             (case FindByKey l (int32 key) of
                None \<Rightarrow> maxBus
              | Some device \<Rightarrow>
                  (case FindByKey l (ControllerKey device) of
                     None \<Rightarrow> maxBus
                   | Some ctlr \<Rightarrow>
                       (case DeviceType ctlr of
                          VirtualSCSIController bus \<Rightarrow>
                            if sint (int32 maxBus) < sint bus then sint bus else maxBus
                        | OtherDevice \<Rightarrow> maxBus)))))"

text \<open>Lines 90 to 112: \<^verbatim>\<open>maxBus\<close> when the loop has ended. A nil map has no entries.\<close>

definition v2_max_bus :: "attrs option \<Rightarrow> virtual_device list \<Rightarrow> int" where
  "v2_max_bus m l =
     (let diskCnt = fst (Atoi (attr_get m ''disk.#''));
          maxBus = diskCnt sdiv 15
      in fold (v2_scan_entry l) (case m of None \<Rightarrow> [] | Some al \<Rightarrow> al) maxBus)"

text \<open>
  What the step takes from outside the file: the lookups of
  \<^verbatim>\<open>virtualmachine.FromUUID\<close> and \<^verbatim>\<open>virtualmachine.Properties\<close> through the
  client (an error message, or the result; of the properties only the device list is
  used), \<^verbatim>\<open>virtualdevice.DiskImportOperation\<close> (the resource data after the call,
  and the error), and for each field of \<^verbatim>\<open>resourceVSphereVirtualMachine().Schema\<close>
  its default as \<^verbatim>\<open>fmt.Sprintf("%v", _)\<close> prints it. They are parameters.
\<close>

record 'vm vsphere_env =
  FromUUID :: "string \<Rightarrow> string + 'vm"
  Properties :: "'vm \<Rightarrow> string + virtual_device list"
  DiskImportOperation :: "attrs \<Rightarrow> virtual_device list \<Rightarrow> attrs \<times> string option"
  SchemaDefault :: "string \<Rightarrow> string"

text \<open>The calls a run makes, in order: the steps the dispatcher invokes and the calls
  a step makes to its collaborators.\<close>

datatype event =
    InvokeV1
  | InvokeV2
  | CallFromUUID string
  | CallProperties
  | CallDiskImportOperation

text \<open>Lines 114 and 115: the resource data the import routine is called with, made from
  an empty state and holding the one value the step sets.\<close>

definition v2_resource_data :: "int \<Rightarrow> attrs" where
  "v2_resource_data maxBus =
     AList.update ''scsi_controller_count'' (Itoa (wrap64 (maxBus + 1))) []"

text \<open>Lines 120 to 127: the value for \<^verbatim>\<open>wait_for_guest_net_timeout\<close>.\<close>

definition guestNetTimeout :: "attrs option \<Rightarrow> (string \<Rightarrow> string) \<Rightarrow> string" where
  "guestNetTimeout m rs =
     (if attr_get m ''wait_for_guest_net'' = ''false'' then ''-1''
      else rs ''wait_for_guest_net_timeout'')"

text \<open>Lines 130 to 141: the new attribute map, built by assignments to an empty map.\<close>

definition v2_attributes :: "(string \<Rightarrow> string) \<Rightarrow> string \<Rightarrow> int \<Rightarrow> attrs" where
  "v2_attributes rs timeout maxBus =
     AList.update ''scsi_controller_count'' (Itoa (wrap64 (maxBus + 1)))
    (AList.update ''wait_for_guest_net_timeout'' timeout
    (AList.update ''shutdown_wait_timeout'' (rs ''shutdown_wait_timeout'')
    (AList.update ''migrate_wait_timeout'' (rs ''migrate_wait_timeout'')
    (AList.update ''force_power_off'' (rs ''force_power_off'')
    (AList.update ''scsi_controller_count'' (rs ''scsi_controller_count'')
    (AList.update ''imported'' ''true'' []))))))"

text \<open>
  \<^verbatim>\<open>migrateVSphereVirtualMachineStateV2\<close>: the calls made, the record after the
  call, and the error. The argument \<^verbatim>\<open>meta\<close> holds a \<^verbatim>\<open>*VSphereClient\<close>, as the
  type assertion of line 63 requires.
\<close>

definition migrateVSphereVirtualMachineStateV2 ::
  "'a instance_state_scheme \<Rightarrow> 'vm vsphere_env \<Rightarrow>
     event list \<times> 'a instance_state_scheme \<times> string option" where
  "migrateVSphereVirtualMachineStateV2 is meta =
     (let name = ID is;
          id = attr_get (Attributes is) ''uuid''
      in if id = [] then
           ([], is, Some (''resource ID '' @ name @ '' has no UUID. State cannot be migrated''))
         else
           (case FromUUID meta id of
              Inl e \<Rightarrow>
                ([CallFromUUID id], is, Some (''error fetching virtual machine: '' @ e))
            | Inr vm \<Rightarrow>
                (case Properties meta vm of
                   Inl e \<Rightarrow>
                     ([CallFromUUID id, CallProperties], is,
                      Some (''error fetching virtual machine properties: '' @ e))
                 | Inr l \<Rightarrow>
                     (let maxBus = v2_max_bus (Attributes is) l;
                          d = v2_resource_data maxBus;
                          calls = [CallFromUUID id, CallProperties, CallDiskImportOperation]
                      in (case snd (DiskImportOperation meta d l) of
                            Some e \<Rightarrow> (calls, is, Some e)
                          | None \<Rightarrow>
                              (let rs = SchemaDefault meta;
                                   timeout = guestNetTimeout (Attributes is) rs
                               in (calls,
                                   is\<lparr>ID := id,
                                      Attributes := Some (v2_attributes rs timeout maxBus)\<rparr>,
                                   None)))))))"

subsection \<open>The dispatcher\<close>

text \<open>
  \<^verbatim>\<open>resourceVSphereVirtualMachineMigrateState\<close>: the calls made, the state returned
  (\<^const>\<open>None\<close> for \<^verbatim>\<open>nil\<close>) and the error. The version is a Go \<^verbatim>\<open>int\<close>; it is
  incremented only from 0 and from 1.
\<close>

function resourceVSphereVirtualMachineMigrateState ::
  "int \<Rightarrow> 'a instance_state_scheme option \<Rightarrow> 'vm vsphere_env \<Rightarrow>
     event list \<times> 'a instance_state_scheme option \<times> string option" where
  "resourceVSphereVirtualMachineMigrateState version os meta =
     (case os of
        None \<Rightarrow> ([], None, None)
      | Some s \<Rightarrow>
          if Empty s then ([], Some s, None)
          else if version = 1 then
            (case migrateVSphereVirtualMachineStateV2 s meta of
               (calls, s', Some e) \<Rightarrow> (InvokeV2 # calls, None, Some e)
             | (calls, s', None) \<Rightarrow>
                 (case resourceVSphereVirtualMachineMigrateState (version + 1) (Some s') meta of
                    (rest, r) \<Rightarrow> (InvokeV2 # calls @ rest, r)))
          else if version = 0 then
            (case migrateVSphereVirtualMachineStateV1 s of
               (s', Some e) \<Rightarrow> ([InvokeV1], None, Some e)
             | (s', None) \<Rightarrow>
                 (case resourceVSphereVirtualMachineMigrateState (version + 1) (Some s') meta of
                    (rest, r) \<Rightarrow> (InvokeV1 # rest, r)))
          else ([], Some s, None))"
  by pat_completeness auto

termination
  by (relation "measure (\<lambda>(version, os, meta). nat (2 - version))") auto

declare resourceVSphereVirtualMachineMigrateState.simps [simp del]

subsection \<open>A concrete setting for the examples\<close>

text \<open>
  A machine with a disk (key 2000) on a SCSI controller (key 1000) at bus 3; a client
  that knows the UUID \<^verbatim>\<open>ABC-123\<close>; an import routine that records the disk in the
  resource data it is given; and defaults for the five schema fields.
\<close>

definition example_devices :: "virtual_device list" where
  "example_devices =
     [\<lparr>Key = 2000, ControllerKey = 1000, DeviceType = OtherDevice\<rparr>,
      \<lparr>Key = 1000, ControllerKey = 100, DeviceType = VirtualSCSIController 3\<rparr>]"

definition example_defaults :: "string \<Rightarrow> string" where
  "example_defaults f =
     (if f = ''wait_for_guest_net_timeout'' then ''5''
      else if f = ''scsi_controller_count'' then ''1''
      else if f = ''force_power_off'' then ''true''
      else if f = ''migrate_wait_timeout'' then ''30''
      else if f = ''shutdown_wait_timeout'' then ''3''
      else ''<nil>'')"

definition example_env :: "nat vsphere_env" where
  "example_env =
     \<lparr>FromUUID = (\<lambda>u. if u = ''ABC-123'' then Inr 7 else Inl ''not found''),
      Properties = (\<lambda>vm. Inr example_devices),
      DiskImportOperation = (\<lambda>d l. (AList.update ''disk.0.key'' ''2000'' d, None)),
      SchemaDefault = example_defaults\<rparr>"

definition example_state :: instance_state where
  "example_state =
     \<lparr>ID = ''vm-old'',
      Attributes = Some [(''disk.0.size'', ''10''), (''uuid'', ''ABC-123''),
                         (''disk.#'', ''5''), (''disk.0.key'', ''2000''),
                         (''wait_for_guest_net'', ''false'')]\<rparr>"

subsection \<open>The derived bus count, as the specification words it\<close>

text \<open>
  The bus number an entry of the old map leads to, if any: the key matches
  \<^verbatim>\<open>disk.<index>.key\<close>, the value parsed is positive, the device list has a device
  with that number as its key, it has a device with the controller key of that device,
  and this one is a SCSI controller.
\<close>

definition reached_bus :: "virtual_device list \<Rightarrow> string \<times> string \<Rightarrow> int option" where
  "reached_bus l kv =
     (case kv of (k, v) \<Rightarrow>
        if disk_key_MatchString k \<and> 1 \<le> fst (Atoi v) then
          (case find (\<lambda>device. sint (Key device) = fst (Atoi v)) l of
             None \<Rightarrow> None
           | Some device \<Rightarrow>
               (case find (\<lambda>ctlr. Key ctlr = ControllerKey device) l of
                  None \<Rightarrow> None
                | Some ctlr \<Rightarrow>
                    (case DeviceType ctlr of
                       VirtualSCSIController bus \<Rightarrow> Some (sint bus)
                     | OtherDevice \<Rightarrow> None)))
        else None)"

definition reached_buses :: "attrs option \<Rightarrow> virtual_device list \<Rightarrow> int list" where
  "reached_buses m l =
     List.map_filter (reached_bus l) (case m of None \<Rightarrow> [] | Some al \<Rightarrow> al)"

text \<open>The number of disks over 15, rounded towards zero.\<close>

definition disk_count_buses :: "attrs option \<Rightarrow> int" where
  "disk_count_buses m = fst (Atoi (attr_get m ''disk.#'')) sdiv 15"

text \<open>The maximum of the two.\<close>

definition derived_bus_count :: "attrs option \<Rightarrow> virtual_device list \<Rightarrow> int" where
  "derived_bus_count m l = Max (set (disk_count_buses m # reached_buses m l))"

text \<open>A record whose disk count over 15 is \<open>2\<^sup>3\<^sup>1\<close>, one more than an \<^verbatim>\<open>int32\<close>
  holds.\<close>

definition large_count_state :: instance_state where
  "large_count_state =
     \<lparr>ID = ''vm-old'',
      Attributes = Some [(''uuid'', ''ABC-123''), (''disk.#'', ''32212254720''),
                         (''disk.0.key'', ''2000'')]\<rparr>"

section \<open>Properties\<close>

lemmas example_defs =
  example_state_def example_env_def example_devices_def example_defaults_def

subsection \<open>The dispatcher\<close>

lemma Migrate_nil:
  "resourceVSphereVirtualMachineMigrateState version None meta = ([], None, None)"
  by (simp add: resourceVSphereVirtualMachineMigrateState.simps)

text \<open>
  Claim C1. For every non-nil state record whose attribute map is empty (nil, or with no
  entry), the dispatcher returns the same record unchanged with no error, whatever the
  version, and invokes no migration step.
\<close>

theorem Migrate_empty_unchanged:
  assumes "Attributes s = None \<or> Attributes s = Some []"
  shows "resourceVSphereVirtualMachineMigrateState version (Some s) meta = ([], Some s, None)"
  using assms
  by (auto simp: resourceVSphereVirtualMachineMigrateState.simps Empty_def)

theorem Migrate_empty_unchanged_witness:
  "Attributes \<lparr>ID = ''vm-1'', Attributes = Some []\<rparr> = Some [] \<and>
   resourceVSphereVirtualMachineMigrateState 1
     (Some \<lparr>ID = ''vm-1'', Attributes = Some []\<rparr>) example_env
     = ([], Some \<lparr>ID = ''vm-1'', Attributes = Some []\<rparr>, None)"
  using Migrate_empty_unchanged [of "\<lparr>ID = ''vm-1'', Attributes = Some []\<rparr>" 1 example_env]
  by simp

text \<open>
  Claim C9. For every version other than 0 and 1, so for every version from 2 on, and
  every non-nil record, the dispatcher returns the record unchanged with no error and
  invokes no step. The record need not even be non-empty.
\<close>

theorem Migrate_fixed_point:
  assumes "version \<noteq> 0" and "version \<noteq> 1"
  shows "resourceVSphereVirtualMachineMigrateState version (Some s) meta = ([], Some s, None)"
  using assms
  by (simp add: resourceVSphereVirtualMachineMigrateState.simps)

theorem Migrate_fixed_point_witness:
  "\<not> Empty example_state \<and> (2::int) \<noteq> 0 \<and> (2::int) \<noteq> 1 \<and>
   resourceVSphereVirtualMachineMigrateState 2 (Some example_state) example_env
     = ([], Some example_state, None)"
  using Migrate_fixed_point [of 2 example_state example_env]
  by (simp add: Empty_def example_state_def)

subsection \<open>Version 1 to 2: errors and the rebuilt record\<close>

lemmas eval_defs = attr_get_def attr_lookup_def Let_def
  v2_max_bus_def v2_scan_entry_def Atoi_def ParseUint_def is_digit_def digit_val_def
  maxUint64_def disk_key_here_def FindByKey_def int32_def v2_resource_data_def
  v2_attributes_def wrap64_def Itoa_def nat_digits.simps guestNetTimeout_def

lemma attr_get_lookup:
  "attr_get m k = (case attr_lookup m k of None \<Rightarrow> [] | Some v \<Rightarrow> v)"
  by (simp add: attr_get_def attr_lookup_def split: option.splits)

lemma attr_get_Nil_iff:
  "attr_get m k = [] \<longleftrightarrow> attr_lookup m k = None \<or> attr_lookup m k = Some []"
  by (auto simp: attr_get_lookup split: option.splits)

lemma V2_result_cases:
  assumes "migrateVSphereVirtualMachineStateV2 is meta = (calls, is', err)"
  shows "(err \<noteq> None \<and> is' = is) \<or>
   (err = None \<and> (\<exists>vm l. attr_get (Attributes is) ''uuid'' \<noteq> [] \<and>
      FromUUID meta (attr_get (Attributes is) ''uuid'') = Inr vm \<and>
      Properties meta vm = Inr l \<and>
      snd (DiskImportOperation meta (v2_resource_data (v2_max_bus (Attributes is) l)) l) = None \<and>
      calls = [CallFromUUID (attr_get (Attributes is) ''uuid''), CallProperties,
               CallDiskImportOperation] \<and>
      is' = is\<lparr>ID := attr_get (Attributes is) ''uuid'',
               Attributes := Some (v2_attributes (SchemaDefault meta)
                  (guestNetTimeout (Attributes is) (SchemaDefault meta))
                  (v2_max_bus (Attributes is) l))\<rparr>))"
  using assms
  by (auto simp: migrateVSphereVirtualMachineStateV2_def Let_def
           split: if_splits sum.splits option.splits)

lemma v2_attributes_list:
  "v2_attributes rs timeout maxBus =
     [(''imported'', ''true''), (''scsi_controller_count'', Itoa (wrap64 (maxBus + 1))),
      (''force_power_off'', rs ''force_power_off''),
      (''migrate_wait_timeout'', rs ''migrate_wait_timeout''),
      (''shutdown_wait_timeout'', rs ''shutdown_wait_timeout''),
      (''wait_for_guest_net_timeout'', timeout)]"
  by (simp add: v2_attributes_def)

lemma V2_example:
  "migrateVSphereVirtualMachineStateV2 example_state example_env =
     ([CallFromUUID ''ABC-123'', CallProperties, CallDiskImportOperation],
      \<lparr>ID = ''ABC-123'',
       Attributes = Some
         [(''imported'', ''true''), (''scsi_controller_count'', ''4''),
          (''force_power_off'', ''true''), (''migrate_wait_timeout'', ''30''),
          (''shutdown_wait_timeout'', ''3''), (''wait_for_guest_net_timeout'', ''-1'')]\<rparr>,
      None)"
  by (simp add: migrateVSphereVirtualMachineStateV2_def example_defs eval_defs)

lemma example_max_bus: "v2_max_bus (Attributes example_state) example_devices = 3"
  by (simp add: example_defs eval_defs)

text \<open>
  Claim C4. When the attribute \<^verbatim>\<open>uuid\<close> is absent or the empty string, the step from
  version 1 to 2 returns the error \<^verbatim>\<open>resource ID <id> has no UUID. State cannot be
  migrated\<close> with the record's current id, makes no call to a collaborator, and leaves
  the whole record (id, attributes and every other field) as it was. The dispatcher,
  called at version 1 with such a non-empty record, invokes that one step and returns the
  error without going on to a further version.
\<close>

theorem V2_missing_uuid:
  assumes "attr_lookup (Attributes is) ''uuid'' = None \<or>
           attr_lookup (Attributes is) ''uuid'' = Some []"
  shows "migrateVSphereVirtualMachineStateV2 is meta =
           ([], is, Some (''resource ID '' @ ID is @ '' has no UUID. State cannot be migrated''))
         \<and> (\<not> Empty is \<longrightarrow>
              resourceVSphereVirtualMachineMigrateState 1 (Some is) meta =
                ([InvokeV2], None,
                 Some (''resource ID '' @ ID is @ '' has no UUID. State cannot be migrated'')))"
proof -
  have "attr_get (Attributes is) ''uuid'' = []"
    using assms by (simp add: attr_get_Nil_iff)
  then show ?thesis
    by (simp add: migrateVSphereVirtualMachineStateV2_def
          resourceVSphereVirtualMachineMigrateState.simps)
qed

theorem V2_missing_uuid_witness:
  "attr_lookup (Attributes \<lparr>ID = ''vm-7'', Attributes = Some [(''name'', ''web'')]\<rparr>) ''uuid'' = None
   \<and> \<not> Empty \<lparr>ID = ''vm-7'', Attributes = Some [(''name'', ''web'')]\<rparr>
   \<and> migrateVSphereVirtualMachineStateV2
        \<lparr>ID = ''vm-7'', Attributes = Some [(''name'', ''web'')]\<rparr> example_env =
       ([], \<lparr>ID = ''vm-7'', Attributes = Some [(''name'', ''web'')]\<rparr>,
        Some ''resource ID vm-7 has no UUID. State cannot be migrated'')
   \<and> resourceVSphereVirtualMachineMigrateState 1
        (Some \<lparr>ID = ''vm-7'', Attributes = Some [(''name'', ''web'')]\<rparr>) example_env =
       ([InvokeV2], None, Some ''resource ID vm-7 has no UUID. State cannot be migrated'')"
  using V2_missing_uuid [of "\<lparr>ID = ''vm-7'', Attributes = Some [(''name'', ''web'')]\<rparr>" example_env]
  by (simp add: attr_lookup_def Empty_def)

text \<open>
  Claim C5. The step from version 1 to 2 is atomic on failure: whenever it returns an
  error, the record after the call is the record before the call. The errors are exactly
  the four of the source: no uuid, a failed lookup of the machine, a failed fetch of its
  properties, a failed disk import.
\<close>

theorem V2_atomic_on_failure:
  "(snd (snd (migrateVSphereVirtualMachineStateV2 is meta)) \<noteq> None \<longrightarrow>
      fst (snd (migrateVSphereVirtualMachineStateV2 is meta)) = is)
   \<and> (snd (snd (migrateVSphereVirtualMachineStateV2 is meta)) \<noteq> None \<longleftrightarrow>
        attr_get (Attributes is) ''uuid'' = []
        \<or> (\<exists>e. FromUUID meta (attr_get (Attributes is) ''uuid'') = Inl e)
        \<or> (\<exists>vm e. FromUUID meta (attr_get (Attributes is) ''uuid'') = Inr vm \<and>
              Properties meta vm = Inl e)
        \<or> (\<exists>vm l e. FromUUID meta (attr_get (Attributes is) ''uuid'') = Inr vm \<and>
              Properties meta vm = Inr l \<and>
              snd (DiskImportOperation meta
                     (v2_resource_data (v2_max_bus (Attributes is) l)) l) = Some e))"
  by (auto simp: migrateVSphereVirtualMachineStateV2_def Let_def
           split: if_splits sum.splits option.splits)

theorem V2_atomic_on_failure_witness:
  "migrateVSphereVirtualMachineStateV2
     \<lparr>ID = ''vm-7'', Attributes = Some [(''uuid'', ''XYZ'')]\<rparr> example_env =
     ([CallFromUUID ''XYZ''], \<lparr>ID = ''vm-7'', Attributes = Some [(''uuid'', ''XYZ'')]\<rparr>,
      Some ''error fetching virtual machine: not found'')"
  using V2_atomic_on_failure [of "\<lparr>ID = ''vm-7'', Attributes = Some [(''uuid'', ''XYZ'')]\<rparr>" example_env]
  by (simp add: migrateVSphereVirtualMachineStateV2_def example_env_def attr_get_def Let_def)

text \<open>
  Claim C10. After a successful step from version 1 to 2 the attribute
  \<^verbatim>\<open>wait_for_guest_net_timeout\<close> is \<^verbatim>\<open>-1\<close> when the old attribute
  \<^verbatim>\<open>wait_for_guest_net\<close> is the string \<^verbatim>\<open>false\<close>, and the schema default of
  \<^verbatim>\<open>wait_for_guest_net_timeout\<close> for every other value, an absent one included. So,
  the schema default not being \<^verbatim>\<open>-1\<close> itself, it is \<^verbatim>\<open>-1\<close> if and only if the old
  attribute is \<^verbatim>\<open>false\<close>.
\<close>

theorem V2_guest_net_timeout:
  assumes "migrateVSphereVirtualMachineStateV2 is meta = (calls, is', None)"
  shows "attr_lookup (Attributes is') ''wait_for_guest_net_timeout'' =
           Some (if attr_lookup (Attributes is) ''wait_for_guest_net'' = Some ''false''
                 then ''-1'' else SchemaDefault meta ''wait_for_guest_net_timeout'')
         \<and> (SchemaDefault meta ''wait_for_guest_net_timeout'' \<noteq> ''-1'' \<longrightarrow>
              (attr_lookup (Attributes is') ''wait_for_guest_net_timeout'' = Some ''-1''
               \<longleftrightarrow> attr_lookup (Attributes is) ''wait_for_guest_net'' = Some ''false''))"
proof -
  have "attr_get (Attributes is) ''wait_for_guest_net'' = ''false'' \<longleftrightarrow>
        attr_lookup (Attributes is) ''wait_for_guest_net'' = Some ''false''"
    by (auto simp: attr_get_lookup split: option.splits)
  then show ?thesis
    using V2_result_cases [OF assms]
    by (auto simp: v2_attributes_list attr_lookup_def guestNetTimeout_def)
qed

theorem V2_guest_net_timeout_witness:
  "snd (snd (migrateVSphereVirtualMachineStateV2 example_state example_env)) = None
   \<and> attr_lookup (Attributes example_state) ''wait_for_guest_net'' = Some ''false''
   \<and> SchemaDefault example_env ''wait_for_guest_net_timeout'' \<noteq> ''-1''
   \<and> attr_lookup (Attributes (fst (snd (migrateVSphereVirtualMachineStateV2
        example_state example_env)))) ''wait_for_guest_net_timeout'' = Some ''-1''"
  using V2_guest_net_timeout [OF V2_example]
  unfolding V2_example
  by (simp add: attr_lookup_def example_defs)

text \<open>
  Claim C3, as stated, says that the attributes the disk import routine populates are in
  the record after a successful step. They are not: the routine writes to the resource
  data \<open>d\<close> of line 114, which is made from an empty state and is not read again, and
  the record gets a new map with six assignments. In the example the routine sets
  \<^verbatim>\<open>disk.0.key\<close> in \<open>d\<close>, and the migrated record has no such attribute.
\<close>

theorem V2_import_data_dropped_counterexample:
  "snd (snd (migrateVSphereVirtualMachineStateV2 example_state example_env)) = None
   \<and> map_of (fst (DiskImportOperation example_env
        (v2_resource_data (v2_max_bus (Attributes example_state) example_devices))
        example_devices)) ''disk.0.key'' = Some ''2000''
   \<and> attr_lookup (Attributes (fst (snd (migrateVSphereVirtualMachineStateV2
        example_state example_env)))) ''disk.0.key'' = None"
  unfolding V2_example
  by (simp add: attr_lookup_def example_env_def v2_resource_data_def)

text \<open>
  Claim C3, amended. After a successful step from version 1 to 2 the keys of the record's
  attribute map are exactly the six the step assigns: \<^verbatim>\<open>imported\<close>,
  \<^verbatim>\<open>scsi_controller_count\<close>, \<^verbatim>\<open>force_power_off\<close>, \<^verbatim>\<open>migrate_wait_timeout\<close>,
  \<^verbatim>\<open>shutdown_wait_timeout\<close> and \<^verbatim>\<open>wait_for_guest_net_timeout\<close>, whatever the
  disk import routine has written to its resource data.
\<close>

theorem V2_attributes_exactly_six:
  assumes "migrateVSphereVirtualMachineStateV2 is meta = (calls, is', None)"
  shows "{k. attr_lookup (Attributes is') k \<noteq> None} =
           {''imported'', ''scsi_controller_count'', ''force_power_off'',
            ''migrate_wait_timeout'', ''shutdown_wait_timeout'',
            ''wait_for_guest_net_timeout''}"
  using V2_result_cases [OF assms]
  by (auto simp: v2_attributes_list attr_lookup_def split: if_splits)

theorem V2_attributes_exactly_six_witness:
  "snd (snd (migrateVSphereVirtualMachineStateV2 example_state example_env)) = None
   \<and> {k. attr_lookup (Attributes (fst (snd (migrateVSphereVirtualMachineStateV2
            example_state example_env)))) k \<noteq> None} =
           {''imported'', ''scsi_controller_count'', ''force_power_off'',
            ''migrate_wait_timeout'', ''shutdown_wait_timeout'',
            ''wait_for_guest_net_timeout''}"
  using V2_attributes_exactly_six [OF V2_example]
  by (simp add: V2_example)

subsection \<open>Version 0 to 1: splitting a key at its dots\<close>

lemma Split_not_Nil [simp]: "Split s sep \<noteq> []"
  by (induction s) (auto split: list.splits)

lemma Split_append_sep:
  "sep \<notin> set p \<Longrightarrow> Split (p @ sep # s) sep = p # Split s sep"
  by (induction p) auto

lemma Split_single: "Split s sep = [p] \<Longrightarrow> s = p \<and> sep \<notin> set s"
  by (induction s arbitrary: p) (auto split: if_splits list.splits)

lemma Split_two:
  "Split s sep = [p, q] \<Longrightarrow> s = p @ sep # q \<and> sep \<notin> set p \<and> sep \<notin> set q"
proof (induction s arbitrary: p)
  case Nil
  then show ?case by simp
next
  case (Cons c cs)
  show ?case
  proof (cases "c = sep")
    case True
    with Cons.prems have "p = []" and "Split cs sep = [q]" by auto
    with True Split_single [of cs sep q] show ?thesis by auto
  next
    case False
    with Cons.prems obtain p' where "Split cs sep = [p', q]" and "p = c # p'"
      by (auto split: list.splits)
    with False Cons.IH [of p'] show ?thesis by auto
  qed
qed

lemma last_piece_unique:
  assumes "a @ sep # y = b @ sep # z" and "sep \<notin> set y" and "sep \<notin> set z"
  shows "y = z"
proof -
  have "takeWhile (\<lambda>c. c \<noteq> sep) (rev y @ sep # rev a) = rev y"
    using assms(2) by (auto simp: takeWhile_tail)
  moreover have "takeWhile (\<lambda>c. c \<noteq> sep) (rev z @ sep # rev b) = rev z"
    using assms(3) by (auto simp: takeWhile_tail)
  moreover have "rev y @ sep # rev a = rev z @ sep # rev b"
    using arg_cong [OF assms(1), of rev] by simp
  ultimately show ?thesis by simp
qed

lemma Split_disk_size_key:
  assumes "CHR ''.'' \<notin> set X"
  shows "Split (disk_size_key X) CHR ''.'' = [''disk'', X, ''size'']"
  using Split_append_sep [OF assms, of "''size''"] by (simp add: disk_size_key_def)

text \<open>The test of lines 164 to 168 holds of exactly the keys \<^verbatim>\<open>disk.<index>.size\<close>
  whose index has no dot, and line 169 then builds the key of the same index.\<close>

lemma disk_size_key_test:
  "HasPrefix k ''disk.'' \<and> HasSuffix k ''.size'' \<and> length (Split k CHR ''.'') = 3
   \<longleftrightarrow> (\<exists>X. CHR ''.'' \<notin> set X \<and> k = disk_size_key X)"
proof
  assume "\<exists>X. CHR ''.'' \<notin> set X \<and> k = disk_size_key X"
  then obtain X where X: "CHR ''.'' \<notin> set X" and k: "k = disk_size_key X"
    by blast
  have "HasPrefix k ''disk.''" and "HasSuffix k ''.size''"
    by (simp_all add: HasPrefix_def HasSuffix_def k disk_size_key_def suffix_def)
  then show "HasPrefix k ''disk.'' \<and> HasSuffix k ''.size'' \<and> length (Split k CHR ''.'') = 3"
    by (simp add: k Split_disk_size_key [OF X])
next
  assume h: "HasPrefix k ''disk.'' \<and> HasSuffix k ''.size'' \<and> length (Split k CHR ''.'') = 3"
  then obtain r where k: "k = ''disk.'' @ r"
    by (auto simp: HasPrefix_def prefix_def)
  have "Split k CHR ''.'' = ''disk'' # Split r CHR ''.''"
    using Split_append_sep [of "CHR ''.''" "''disk''" r] by (simp add: k)
  with h have "length (Split r CHR ''.'') = 2" by simp
  then obtain p q where "Split r CHR ''.'' = [p, q]"
    by (cases "Split r CHR ''.''"; cases "tl (Split r CHR ''.'')") auto
  from Split_two [OF this]
  have r: "r = p @ CHR ''.'' # q" and p: "CHR ''.'' \<notin> set p" and q: "CHR ''.'' \<notin> set q"
    by auto
  from h obtain z where "k = z @ ''.size''"
    by (auto simp: HasSuffix_def suffix_def)
  then have "(''disk.'' @ p) @ CHR ''.'' # q = z @ CHR ''.'' # ''size''"
    by (simp add: k r)
  from last_piece_unique [OF this q] have "q = ''size''" by simp
  with k r have "k = disk_size_key p" by (simp add: disk_size_key_def)
  with p show "\<exists>X. CHR ''.'' \<notin> set X \<and> k = disk_size_key X" by blast
qed

lemma disk_size_key_inj [simp]: "disk_size_key X = disk_size_key Y \<longleftrightarrow> X = Y"
  by (simp add: disk_size_key_def)

lemma controller_type_key_inj [simp]: "controller_type_key X = controller_type_key Y \<longleftrightarrow> X = Y"
  by (simp add: controller_type_key_def)

lemma disk_size_key_neq_controller_type_key [simp]:
  "disk_size_key X \<noteq> controller_type_key Y"
proof
  assume "disk_size_key X = controller_type_key Y"
  from arg_cong [OF this, of rev] show False
    by (simp add: disk_size_key_def controller_type_key_def)
qed

lemma flags_neq_keys [simp]:
  "''skip_customization'' \<noteq> disk_size_key X"
  "''enable_disk_uuid'' \<noteq> disk_size_key X"
  "''skip_customization'' \<noteq> controller_type_key X"
  "''enable_disk_uuid'' \<noteq> controller_type_key X"
  "disk_size_key X \<noteq> ''skip_customization''"
  "disk_size_key X \<noteq> ''enable_disk_uuid''"
  "controller_type_key X \<noteq> ''skip_customization''"
  "controller_type_key X \<noteq> ''enable_disk_uuid''"
  by (simp_all add: disk_size_key_def controller_type_key_def)

lemma v1_disk_key_shaped:
  assumes "CHR ''.'' \<notin> set X"
  shows "v1_disk_key (disk_size_key X) m =
           (case map_of m (controller_type_key X) of
              None \<Rightarrow> AList.update (controller_type_key X) ''scsi'' m
            | Some v \<Rightarrow> m)"
proof -
  have "HasPrefix (disk_size_key X) ''disk.'' \<and> HasSuffix (disk_size_key X) ''.size'' \<and>
        length (Split (disk_size_key X) CHR ''.'') = 3"
    using assms disk_size_key_test [of "disk_size_key X"] by blast
  moreover have
    "Join [Split (disk_size_key X) CHR ''.'' ! 0, Split (disk_size_key X) CHR ''.'' ! 1,
           ''controller_type''] ''.'' = controller_type_key X"
    by (simp add: Split_disk_size_key [OF assms] controller_type_key_def)
  ultimately show ?thesis
    by (simp add: v1_disk_key_def Let_def)
qed

lemma v1_disk_key_other:
  assumes "\<not> (\<exists>X. CHR ''.'' \<notin> set X \<and> k = disk_size_key X)"
  shows "v1_disk_key k m = m"
proof -
  have "\<not> (HasPrefix k ''disk.'' \<and> HasSuffix k ''.size'' \<and> length (Split k CHR ''.'') = 3)"
    using assms disk_size_key_test [of k] by blast
  then show ?thesis
    unfolding v1_disk_key_def Let_def by (cases "HasPrefix k ''disk.'' \<and> HasSuffix k ''.size''") simp_all 
qed

lemma map_of_v1_disk_key:
  "map_of (v1_disk_key k m) x =
     (if map_of m x = None \<and>
         (\<exists>X. CHR ''.'' \<notin> set X \<and> k = disk_size_key X \<and> x = controller_type_key X)
      then Some ''scsi'' else map_of m x)"
proof (cases "\<exists>X. CHR ''.'' \<notin> set X \<and> k = disk_size_key X")
  case True
  then obtain X where X: "CHR ''.'' \<notin> set X" and k: "k = disk_size_key X"
    by blast
  have ex: "(\<exists>Y. CHR ''.'' \<notin> set Y \<and> k = disk_size_key Y \<and> x = controller_type_key Y)
            \<longleftrightarrow> x = controller_type_key X"
    using X by (auto simp: k)
  show ?thesis
    unfolding ex unfolding k v1_disk_key_shaped [OF X]
    by (simp add: update_conv' split: option.splits)
next
  case False
  then have "\<not> (\<exists>X. CHR ''.'' \<notin> set X \<and> k = disk_size_key X \<and> x = controller_type_key X)"
    by blast
  with False show ?thesis by (simp add: v1_disk_key_other)
qed

lemma map_of_fold_v1_disk_key:
  "map_of (fold v1_disk_key ks m) x =
     (if map_of m x = None \<and>
         (\<exists>X. CHR ''.'' \<notin> set X \<and> disk_size_key X \<in> set ks \<and> x = controller_type_key X)
      then Some ''scsi'' else map_of m x)"
proof (induction ks arbitrary: m)
  case Nil
  then show ?case by simp
next
  case (Cons k ks)
  define A where "A \<longleftrightarrow>
    (\<exists>X. CHR ''.'' \<notin> set X \<and> k = disk_size_key X \<and> x = controller_type_key X)"
  define B where "B \<longleftrightarrow>
    (\<exists>X. CHR ''.'' \<notin> set X \<and> disk_size_key X \<in> set ks \<and> x = controller_type_key X)"
  have split: "(\<exists>X. CHR ''.'' \<notin> set X \<and> disk_size_key X \<in> set (k # ks) \<and>
                    x = controller_type_key X) \<longleftrightarrow> A \<or> B"
    unfolding A_def B_def by auto
  have "map_of (fold v1_disk_key (k # ks) m) x =
          (if map_of (v1_disk_key k m) x = None \<and> B then Some ''scsi''
           else map_of (v1_disk_key k m) x)"
    unfolding B_def by (simp add: Cons.IH)
  also have "map_of (v1_disk_key k m) x =
          (if map_of m x = None \<and> A then Some ''scsi'' else map_of m x)"
    unfolding A_def by (rule map_of_v1_disk_key)
  finally show ?case
    unfolding split by (cases "map_of m x"; cases A; cases B; simp)
qed

text \<open>The keys the loop adds fail the test of line 164, so it makes no difference whether
  the \<^verbatim>\<open>range\<close> loop produces them.\<close>

lemma v1_disk_key_added_key: "v1_disk_key (controller_type_key X) m = m"
proof (rule v1_disk_key_other)
  have "controller_type_key X \<noteq> disk_size_key Y" for Y
    by (rule not_sym) (rule disk_size_key_neq_controller_type_key)
  then show "\<not> (\<exists>Y. CHR ''.'' \<notin> set Y \<and> controller_type_key X = disk_size_key Y)"
    by blast
qed

lemma map_of_default_flag:
  "map_of (if attr_get (Some m) f = [] then AList.update f ''false'' m else m) y =
     (if y = f \<and> (map_of m f = None \<or> map_of m f = Some []) then Some ''false''
      else map_of m y)"
  by (auto simp: attr_get_def update_conv' split: option.splits)

lemma map_of_v1_attributes:
  "map_of (v1_attributes m) x =
     (if x = ''skip_customization'' \<or> x = ''enable_disk_uuid'' then
        (if map_of m x = None \<or> map_of m x = Some [] then Some ''false'' else map_of m x)
      else if map_of m x = None \<and>
              (\<exists>X. CHR ''.'' \<notin> set X \<and> map_of m (disk_size_key X) \<noteq> None \<and>
                   x = controller_type_key X)
           then Some ''scsi'' else map_of m x)"
proof -
  define m1 where "m1 = (if attr_get (Some m) ''skip_customization'' = []
                then AList.update ''skip_customization'' ''false'' m else m)"
  define m2 where "m2 = (if attr_get (Some m1) ''enable_disk_uuid'' = []
                then AList.update ''enable_disk_uuid'' ''false'' m1 else m1)"
  have neq: "''skip_customization'' \<noteq> ''enable_disk_uuid''" by simp
  have m1: "map_of m1 y =
     (if y = ''skip_customization'' \<and>
         (map_of m ''skip_customization'' = None \<or> map_of m ''skip_customization'' = Some [])
      then Some ''false'' else map_of m y)" for y
    unfolding m1_def by (rule map_of_default_flag)
  have "map_of m2 y =
     (if y = ''enable_disk_uuid'' \<and>
         (map_of m1 ''enable_disk_uuid'' = None \<or> map_of m1 ''enable_disk_uuid'' = Some [])
      then Some ''false'' else map_of m1 y)" for y
    unfolding m2_def by (rule map_of_default_flag)
  then have m2: "map_of m2 y =
     (if y = ''skip_customization'' \<or> y = ''enable_disk_uuid'' then
        (if map_of m y = None \<or> map_of m y = Some [] then Some ''false'' else map_of m y)
      else map_of m y)" for y
    unfolding m1 using neq by (cases "y = ''skip_customization''") (simp_all del: list.inject)
  have keys: "disk_size_key X \<in> set (map fst m2) \<longleftrightarrow> map_of m (disk_size_key X) \<noteq> None" for X
  proof -
    have "disk_size_key X \<in> set (map fst m2) \<longleftrightarrow> map_of m2 (disk_size_key X) \<noteq> None"
      by (simp add: map_of_eq_None_iff)
    then show ?thesis unfolding m2 by simp
  qed
  define D where "D \<longleftrightarrow>
    (\<exists>X. CHR ''.'' \<notin> set X \<and> map_of m (disk_size_key X) \<noteq> None \<and>
         x = controller_type_key X)"
  have ex: "(\<exists>X. CHR ''.'' \<notin> set X \<and> disk_size_key X \<in> set (map fst m2) \<and>
                 x = controller_type_key X) \<longleftrightarrow> D"
    unfolding D_def using keys by blast
  have flag: "x \<noteq> ''skip_customization'' \<and> x \<noteq> ''enable_disk_uuid''" if D
    using that unfolding D_def by auto
  have "v1_attributes m = fold v1_disk_key (map fst m2) m2"
    unfolding v1_attributes_def m1_def m2_def Let_def by (rule refl)
  then have "map_of (v1_attributes m) x =
     (if map_of m2 x = None \<and> D then Some ''scsi'' else map_of m2 x)"
    by (simp only: map_of_fold_v1_disk_key ex)
  then show ?thesis
    unfolding D_def [symmetric] m2 using flag by (cases D) auto
qed



text \<open>The map after the step depends on the map before it only, not on the order in which
  the entries are listed, which is the order the \<^verbatim>\<open>range\<close> loop visits them in.\<close>

lemma v1_attributes_order:
  assumes "map_of m = map_of m'"
  shows "map_of (v1_attributes m) = map_of (v1_attributes m')"
  by (rule ext) (simp only: map_of_v1_attributes assms)

lemma v1_attributes_flags:
  assumes "f = ''skip_customization'' \<or> f = ''enable_disk_uuid''"
  shows "map_of (v1_attributes m) f =
           (if map_of m f = None \<or> map_of m f = Some [] then Some ''false'' else map_of m f)"
  using assms by (auto simp only: map_of_v1_attributes split: if_splits)

lemma v1_attributes_flag_set:
  assumes "f = ''skip_customization'' \<or> f = ''enable_disk_uuid''"
  shows "attr_get (Some (v1_attributes m)) f \<noteq> []"
proof -
  have "map_of (v1_attributes m) f = Some ''false'' \<or>
        (\<exists>v. v \<noteq> [] \<and> map_of (v1_attributes m) f = Some v)"
    unfolding v1_attributes_flags [OF assms] by (cases "map_of m f") auto
  then show ?thesis
    by (auto simp: attr_get_def)
qed

lemma v1_attributes_not_Nil: "v1_attributes m \<noteq> []"
proof
  assume "v1_attributes m = []"
  then have "attr_get (Some (v1_attributes m)) ''skip_customization'' = []"
    by (simp add: attr_get_def)
  with v1_attributes_flag_set [of "''skip_customization''" m] show False by blast
qed

lemma fold_v1_disk_key_closed:
  assumes "\<And>X. CHR ''.'' \<notin> set X \<Longrightarrow> disk_size_key X \<in> set ks \<Longrightarrow>
             map_of r (controller_type_key X) \<noteq> None"
  shows "fold v1_disk_key ks r = r"
  using assms
proof (induction ks)
  case Nil
  then show ?case by simp
next
  case (Cons k ks)
  have "v1_disk_key k r = r"
  proof (cases "\<exists>X. CHR ''.'' \<notin> set X \<and> k = disk_size_key X")
    case True
    then obtain X where X: "CHR ''.'' \<notin> set X" and k: "k = disk_size_key X" by blast
    from Cons.prems [OF X] k have "map_of r (controller_type_key X) \<noteq> None" by simp
    then show ?thesis
      unfolding k v1_disk_key_shaped [OF X] by (auto split: option.splits)
  next
    case False
    then show ?thesis by (rule v1_disk_key_other)
  qed
  moreover have "fold v1_disk_key ks r = r"
    by (rule Cons.IH) (simp add: Cons.prems)
  ultimately show ?case by simp
qed

lemma v1_attributes_closed:
  assumes "CHR ''.'' \<notin> set X"
    and "disk_size_key X \<in> set (map fst (v1_attributes m))"
  shows "map_of (v1_attributes m) (controller_type_key X) \<noteq> None"
proof -
  from assms(2) have "map_of (v1_attributes m) (disk_size_key X) \<noteq> None"
    by (simp add: map_of_eq_None_iff)
  then have present: "map_of m (disk_size_key X) \<noteq> None"
    unfolding map_of_v1_attributes by simp
  show ?thesis
  proof (cases "map_of m (controller_type_key X)")
    case None
    moreover have "\<exists>Y. CHR ''.'' \<notin> set Y \<and> map_of m (disk_size_key Y) \<noteq> None \<and>
                       controller_type_key X = controller_type_key Y"
      using assms(1) present by blast
    ultimately show ?thesis
      unfolding map_of_v1_attributes by simp
  next
    case (Some v)
    then show ?thesis
      unfolding map_of_v1_attributes by simp
  qed
qed

lemma v1_attributes_idem: "v1_attributes (v1_attributes m) = v1_attributes m"
proof -
  define r where "r = v1_attributes m"
  have sk: "attr_get (Some r) ''skip_customization'' \<noteq> []"
    and en: "attr_get (Some r) ''enable_disk_uuid'' \<noteq> []"
    unfolding r_def by (rule v1_attributes_flag_set, simp)+
  have "fold v1_disk_key (map fst r) r = r"
    unfolding r_def by (rule fold_v1_disk_key_closed) (rule v1_attributes_closed)
  moreover have "v1_attributes r = fold v1_disk_key (map fst r) r"
    using sk en unfolding v1_attributes_def [of r] Let_def by simp
  ultimately show ?thesis
    by (simp add: r_def)
qed

lemma V1_result:
  "migrateVSphereVirtualMachineStateV1 is =
     (if Empty is then (is, None)
      else (is\<lparr>Attributes := Some (v1_attributes (the (Attributes is)))\<rparr>, None))"
  by (auto simp: migrateVSphereVirtualMachineStateV1_def Empty_def split: option.splits)

lemma attr_lookup_V1:
  assumes "\<not> Empty is"
  shows "attr_lookup (Attributes (fst (migrateVSphereVirtualMachineStateV1 is))) x =
           map_of (v1_attributes (the (Attributes is))) x"
    and "attr_lookup (Attributes is) x = map_of (the (Attributes is)) x"
  using assms by (auto simp: V1_result attr_lookup_def Empty_def split: option.splits)

lemma V1_example:
  "migrateVSphereVirtualMachineStateV1 example_state =
     (\<lparr>ID = ''vm-old'',
       Attributes = Some [(''disk.0.size'', ''10''), (''uuid'', ''ABC-123''),
          (''disk.#'', ''5''), (''disk.0.key'', ''2000''), (''wait_for_guest_net'', ''false''),
          (''skip_customization'', ''false''), (''enable_disk_uuid'', ''false''),
          (''disk.0.controller_type'', ''scsi'')]\<rparr>, None)"
  by (simp add: migrateVSphereVirtualMachineStateV1_def Empty_def example_state_def
        v1_attributes_def attr_get_def v1_disk_key_def HasPrefix_def HasSuffix_def
        suffix_to_prefix Let_def)

text \<open>
  Claim C6. For every key \<^verbatim>\<open>disk.<index>.size\<close> of the map with exactly three components
  separated by dots (an index without a dot), the step from version 0 to 1 sets the
  sibling key \<^verbatim>\<open>disk.<index>.controller_type\<close> to \<^verbatim>\<open>scsi\<close> when it is absent and
  leaves its value when it is present. No other key gets a sibling: a key whose lookup the
  step changes is one of the two flags or the sibling of such a key of three components.
\<close>

theorem V1_controller_type:
  "(CHR ''.'' \<notin> set X \<and> attr_lookup (Attributes is) (disk_size_key X) \<noteq> None \<longrightarrow>
      attr_lookup (Attributes (fst (migrateVSphereVirtualMachineStateV1 is)))
          (controller_type_key X) =
        (case attr_lookup (Attributes is) (controller_type_key X) of
           None \<Rightarrow> Some ''scsi'' | Some v \<Rightarrow> Some v))
   \<and> (attr_lookup (Attributes (fst (migrateVSphereVirtualMachineStateV1 is))) x \<noteq>
        attr_lookup (Attributes is) x \<longrightarrow>
        x = ''skip_customization'' \<or> x = ''enable_disk_uuid'' \<or>
        (\<exists>Y. CHR ''.'' \<notin> set Y \<and> attr_lookup (Attributes is) (disk_size_key Y) \<noteq> None \<and>
             x = controller_type_key Y))"
proof (cases "Empty is")
  case True
  then show ?thesis
    by (auto simp: V1_result attr_lookup_def Empty_def split: option.splits)
next
  case False
  note lk = attr_lookup_V1 [OF False]
  have "map_of (v1_attributes (the (Attributes is))) (controller_type_key X) =
          (case map_of (the (Attributes is)) (controller_type_key X) of
             None \<Rightarrow> Some ''scsi'' | Some v \<Rightarrow> Some v)"
    if "CHR ''.'' \<notin> set X" and "map_of (the (Attributes is)) (disk_size_key X) \<noteq> None"
  proof -
    have "\<exists>Y. CHR ''.'' \<notin> set Y \<and> map_of (the (Attributes is)) (disk_size_key Y) \<noteq> None \<and>
              controller_type_key X = controller_type_key Y"
      using that by blast
    then show ?thesis
      unfolding map_of_v1_attributes by (simp split: option.splits)
  qed
  moreover have "x = ''skip_customization'' \<or> x = ''enable_disk_uuid'' \<or>
        (\<exists>Y. CHR ''.'' \<notin> set Y \<and> map_of (the (Attributes is)) (disk_size_key Y) \<noteq> None \<and>
             x = controller_type_key Y)"
    if "map_of (v1_attributes (the (Attributes is))) x \<noteq> map_of (the (Attributes is)) x"
    using that unfolding map_of_v1_attributes by (cases "x = ''skip_customization'' \<or> x = ''enable_disk_uuid''")
       (simp_all only: if_True if_False split: if_splits, blast+)
  ultimately show ?thesis
    unfolding lk by blast
qed


theorem V1_controller_type_witness:
  "CHR ''.'' \<notin> set ''0'' \<and> attr_lookup (Attributes example_state) (disk_size_key ''0'') \<noteq> None
   \<and> attr_lookup (Attributes example_state) (controller_type_key ''0'') = None
   \<and> attr_lookup (Attributes (fst (migrateVSphereVirtualMachineStateV1 example_state)))
        (controller_type_key ''0'') = Some ''scsi''
   \<and> attr_lookup (Attributes (fst (migrateVSphereVirtualMachineStateV1 example_state)))
        ''disk.0.controller_type'' \<noteq> attr_lookup (Attributes example_state) ''disk.0.controller_type''"
  using V1_controller_type [of "''0''" example_state "''disk.0.controller_type''"]
  unfolding V1_example
  by (simp add: attr_lookup_def example_state_def disk_size_key_def controller_type_key_def)

text \<open>
  Claim C7, as stated, says that a flag which is already set to any value is left
  untouched, and that an absent flag is set. A flag set to the empty string is not left
  untouched: line 155 compares the looked-up value with \<^verbatim>\<open>""\<close>, which is also what
  a missing key gives, and overwrites it. And on a record with a nil map the guard of
  line 148 returns at once, so that an absent flag stays absent.
\<close>

theorem V1_flag_empty_string_counterexample:
  "attr_lookup (Attributes \<lparr>ID = ''vm-1'', Attributes = Some [(''skip_customization'', [])]\<rparr>)
      ''skip_customization'' = Some []
   \<and> attr_lookup (Attributes (fst (migrateVSphereVirtualMachineStateV1
        \<lparr>ID = ''vm-1'', Attributes = Some [(''skip_customization'', [])]\<rparr>)))
      ''skip_customization'' = Some ''false''
   \<and> attr_lookup (Attributes \<lparr>ID = ''vm-1'', Attributes = None\<rparr>)
      ''skip_customization'' = None
   \<and> attr_lookup (Attributes (fst (migrateVSphereVirtualMachineStateV1
        \<lparr>ID = ''vm-1'', Attributes = None\<rparr>)))
      ''skip_customization'' = None"
  by (simp add: migrateVSphereVirtualMachineStateV1_def Empty_def attr_lookup_def
        v1_attributes_def attr_get_def v1_disk_key_def HasPrefix_def HasSuffix_def Let_def)

text \<open>
  Claim C7, amended. On a record that is not empty, the step from version 0 to 1 sets each
  of \<^verbatim>\<open>skip_customization\<close> and \<^verbatim>\<open>enable_disk_uuid\<close> to \<^verbatim>\<open>false\<close> when the
  attribute is absent or is the empty string, and leaves an attribute with any other
  value untouched.
\<close>

theorem V1_flag_defaults:
  assumes "\<not> Empty is"
    and "f = ''skip_customization'' \<or> f = ''enable_disk_uuid''"
  shows "attr_lookup (Attributes (fst (migrateVSphereVirtualMachineStateV1 is))) f =
           (if attr_lookup (Attributes is) f = None \<or> attr_lookup (Attributes is) f = Some []
            then Some ''false'' else attr_lookup (Attributes is) f)"
  unfolding attr_lookup_V1 [OF assms(1)] by (rule v1_attributes_flags [OF assms(2)])

theorem V1_flag_defaults_witness:
  "\<not> Empty example_state
   \<and> attr_lookup (Attributes example_state) ''enable_disk_uuid'' = None
   \<and> attr_lookup (Attributes (fst (migrateVSphereVirtualMachineStateV1 example_state)))
        ''enable_disk_uuid'' = Some ''false''"
  using V1_flag_defaults [of example_state "''enable_disk_uuid''"]
  unfolding V1_example
  by (simp add: attr_lookup_def example_state_def Empty_def)

text \<open>
  Claim C8. The step from version 0 to 1 is idempotent: applied to its own result it
  returns that result again (the same record, entry for entry, and no error).
\<close>

theorem V1_idempotent:
  "migrateVSphereVirtualMachineStateV1 (fst (migrateVSphereVirtualMachineStateV1 is)) =
     migrateVSphereVirtualMachineStateV1 is"
proof (cases "Empty is")
  case True
  then show ?thesis by (simp add: V1_result)
next
  case False
  then have "\<not> Empty (is\<lparr>Attributes := Some (v1_attributes (the (Attributes is)))\<rparr>)"
    by (simp add: Empty_def v1_attributes_not_Nil)
  with False show ?thesis
    by (simp add: V1_result v1_attributes_idem)
qed

theorem V1_idempotent_witness:
  "migrateVSphereVirtualMachineStateV1 (fst (migrateVSphereVirtualMachineStateV1 example_state))
     = migrateVSphereVirtualMachineStateV1 example_state
   \<and> attr_lookup (Attributes (fst (migrateVSphereVirtualMachineStateV1 example_state)))
        ''disk.0.controller_type'' = Some ''scsi''"
  using V1_idempotent [of example_state]
  unfolding V1_example
  by (simp add: attr_lookup_def)

subsection \<open>Decimal strings: printing, then parsing\<close>

lemma digit_char:
  assumes "k < 10"
  shows "is_digit (''0123456789'' ! k)" and "digit_val (''0123456789'' ! k) = int k"
    and "''0123456789'' ! k \<noteq> CHR ''+''" and "''0123456789'' ! k \<noteq> CHR ''-''"
proof -
  from assms have "k = 0 \<or> k = 1 \<or> k = 2 \<or> k = 3 \<or> k = 4 \<or> k = 5 \<or> k = 6 \<or> k = 7 \<or>
    k = 8 \<or> k = 9"
    by arith
  then show "is_digit (''0123456789'' ! k)" and "digit_val (''0123456789'' ! k) = int k"
    and "''0123456789'' ! k \<noteq> CHR ''+''" and "''0123456789'' ! k \<noteq> CHR ''-''"
    by (auto simp: is_digit_def digit_val_def)
qed

lemma ParseUint_digits_append:
  "ParseUint_digits a (xs @ ys) =
     (case ParseUint_digits a xs of
        (b, None) \<Rightarrow> ParseUint_digits b ys
      | (b, Some e) \<Rightarrow> (b, Some e))"
  by (induction xs arbitrary: a) (auto simp: Let_def)

lemma nat_digits_not_Nil: "nat_digits n \<noteq> []"
  by (subst nat_digits.simps) simp

lemma hd_nat_digits: "hd (nat_digits n) \<noteq> CHR ''+'' \<and> hd (nat_digits n) \<noteq> CHR ''-''"
proof (induction n rule: nat_digits.induct)
  case (1 n)
  show ?case
  proof (cases "n < 10")
    case True
    then show ?thesis
      by (subst (1 2) nat_digits.simps) (simp add: digit_char)
  next
    case False
    with 1 show ?thesis
      by (subst (1 2) nat_digits.simps) (simp add: nat_digits_not_Nil)
  qed
qed

lemma ParseUint_digits_nat_digits:
  "int n \<le> maxUint64 \<Longrightarrow> ParseUint_digits 0 (nat_digits n) = (int n, None)"
proof (induction n rule: nat_digits.induct)
  case (1 n)
  show ?case
  proof (cases "n < 10")
    case True
    then show ?thesis
      by (subst nat_digits.simps) (simp add: digit_char maxUint64_def)
  next
    case False
    have "int (n div 10) \<le> maxUint64"
      using "1.prems" by (simp add: maxUint64_def)
    with False "1.IH" have "ParseUint_digits 0 (nat_digits (n div 10)) = (int (n div 10), None)"
      by simp
    moreover have "int (n div 10) * 10 + int (n mod 10) = int n"
      by presburger
    moreover have "\<not> maxUint64 div 10 + 1 \<le> int (n div 10)"
      using "1.prems" by (simp add: maxUint64_def)
    ultimately show ?thesis
      using False "1.prems"
      by (subst nat_digits.simps) (simp add: ParseUint_digits_append digit_char Let_def)
  qed
qed

lemma ParseUint_nat_digits:
  "int n \<le> maxUint64 \<Longrightarrow> ParseUint (nat_digits n) = (int n, None)"
  by (simp add: ParseUint_def nat_digits_not_Nil ParseUint_digits_nat_digits)

text \<open>Parsing what was printed gives the number back, for every 64-bit \<^verbatim>\<open>int\<close>.\<close>

lemma Atoi_Itoa:
  assumes "- (2 ^ 63) \<le> n" and "n < 2 ^ 63"
  shows "Atoi (Itoa n) = (n, None)"
proof (cases "n < 0")
  case True
  have "int (nat (- n)) \<le> maxUint64"
    using assms True by (simp add: maxUint64_def)
  from ParseUint_nat_digits [OF this] True assms show ?thesis
    by (simp add: Atoi_def Itoa_def)
next
  case False
  obtain c cs where cs: "nat_digits (nat n) = c # cs"
    using nat_digits_not_Nil [of "nat n"] by (cases "nat_digits (nat n)") auto
  with hd_nat_digits [of "nat n"] have c: "c \<noteq> CHR ''+''" "c \<noteq> CHR ''-''" by auto
  have "int (nat n) \<le> maxUint64"
    using assms False by (simp add: maxUint64_def)
  from ParseUint_nat_digits [OF this] have "ParseUint (c # cs) = (n, None)"
    using False by (simp add: cs)
  with False c assms show ?thesis
    by (simp add: Atoi_def Itoa_def cs)
qed

lemma Atoi_Nil: "Atoi [] = (0, Some ErrSyntax)"
  by (simp add: Atoi_def)

subsection \<open>Version 1 to 2: the bus count\<close>

lemma sint_int32: "- (2 ^ 31) \<le> x \<Longrightarrow> x < 2 ^ 31 \<Longrightarrow> sint (int32 x) = x"
  by (simp add: int32_def sint_sbintrunc' signed_take_bit_int_eq_self)

lemma sint_32_range: "- (2 ^ 31) \<le> sint (w :: 32 word) \<and> sint w < 2 ^ 31"
  using sint_ge [of w] sint_lt [of w] by simp

lemma Key_eq_int32:
  assumes "- (2 ^ 31) \<le> x" and "x < 2 ^ 31"
  shows "(w :: 32 word) = int32 x \<longleftrightarrow> sint w = x"
proof
  assume "w = int32 x"
  then show "sint w = x" by (simp add: sint_int32 [OF assms])
next
  assume "sint w = x"
  then have "int32 x = word_of_int (sint w)" by (simp add: int32_def)
  then show "w = int32 x" by simp
qed

lemma FindByKey_int32:
  assumes "- (2 ^ 31) \<le> x" and "x < 2 ^ 31"
  shows "FindByKey l (int32 x) = find (\<lambda>device. sint (Key device) = x) l"
  unfolding FindByKey_def by (simp add: Key_eq_int32 [OF assms])

lemma v2_scan_entry_max:
  assumes "- (2 ^ 31) \<le> maxBus" and "maxBus < 2 ^ 31"
    and "disk_key_MatchString k \<longrightarrow> fst (Atoi v) < 2 ^ 31"
  shows "v2_scan_entry l (k, v) maxBus =
           (case reached_bus l (k, v) of None \<Rightarrow> maxBus | Some bus \<Rightarrow> max bus maxBus)"
proof (cases "disk_key_MatchString k \<and> 1 \<le> fst (Atoi v)")
  case False
  then show ?thesis
    by (auto simp: v2_scan_entry_def reached_bus_def Let_def)
next
  case True
  then have "- (2 ^ 31) \<le> fst (Atoi v)" and "fst (Atoi v) < 2 ^ 31"
    using assms(3) by auto
  note find = FindByKey_int32 [OF this]
  have cmp: "(if sint (int32 maxBus) < sint bus then sint bus else maxBus) = max (sint bus) maxBus"
    for bus :: "32 word"
    by (simp add: sint_int32 [OF assms(1,2)] max_def)
  have ctlr: "FindByKey l (ControllerKey device) =
                find (\<lambda>ctlr. Key ctlr = ControllerKey device) l" for device
    by (simp add: FindByKey_def)
  from True show ?thesis
    by (simp add: v2_scan_entry_def reached_bus_def Let_def find ctlr cmp
          split: option.splits device_type.splits)
qed

lemma reached_bus_range:
  "reached_bus l kv = Some bus \<Longrightarrow> - (2 ^ 31) \<le> bus \<and> bus < 2 ^ 31"
  using sint_32_range
  by (auto simp: reached_bus_def split: prod.splits if_splits option.splits device_type.splits)

lemma fold_v2_scan_entry:
  assumes "- (2 ^ 31) \<le> maxBus" and "maxBus < 2 ^ 31"
    and "\<forall>kv \<in> set al. disk_key_MatchString (fst kv) \<longrightarrow> fst (Atoi (snd kv)) < 2 ^ 31"
  shows "fold (v2_scan_entry l) al maxBus = fold max (List.map_filter (reached_bus l) al) maxBus"
  using assms
proof (induction al arbitrary: maxBus)
  case Nil
  then show ?case by simp
next
  case (Cons kv al)
  have step: "v2_scan_entry l kv maxBus =
           (case reached_bus l kv of None \<Rightarrow> maxBus | Some bus \<Rightarrow> max bus maxBus)"
    using Cons.prems v2_scan_entry_max [of maxBus "fst kv" "snd kv" l] by simp
  show ?case
  proof (cases "reached_bus l kv")
    case None
    with step Cons show ?thesis by simp
  next
    case (Some bus)
    with reached_bus_range [OF Some] Cons.prems
    have "- (2 ^ 31) \<le> max bus maxBus" and "max bus maxBus < 2 ^ 31" by auto
    with Cons.IH [of "max bus maxBus"] Cons.prems(3) step Some show ?thesis
      by simp
  qed
qed

lemma v2_max_bus_derived:
  assumes "- (2 ^ 31) \<le> disk_count_buses m" and "disk_count_buses m < 2 ^ 31"
    and "\<forall>kv \<in> set (case m of None \<Rightarrow> [] | Some al \<Rightarrow> al).
           disk_key_MatchString (fst kv) \<longrightarrow> fst (Atoi (snd kv)) < 2 ^ 31"
  shows "v2_max_bus m l = derived_bus_count m l"
proof -
  have "v2_max_bus m l =
          fold (v2_scan_entry l) (case m of None \<Rightarrow> [] | Some al \<Rightarrow> al) (disk_count_buses m)"
    by (simp add: v2_max_bus_def disk_count_buses_def Let_def)
  also have "\<dots> = fold max (reached_buses m l) (disk_count_buses m)"
    unfolding reached_buses_def by (rule fold_v2_scan_entry [OF assms])
  also have "\<dots> = derived_bus_count m l"
    by (simp only: derived_bus_count_def Max.set_eq_fold)
  finally show ?thesis .
qed

lemma derived_bus_count_range:
  assumes "- (2 ^ 31) \<le> disk_count_buses m" and "disk_count_buses m < 2 ^ 31"
  shows "- (2 ^ 31) \<le> derived_bus_count m l \<and> derived_bus_count m l < 2 ^ 31"
proof -
  have "derived_bus_count m l \<in> set (disk_count_buses m # reached_buses m l)"
    unfolding derived_bus_count_def by (rule Max_in) simp_all
  then consider "derived_bus_count m l = disk_count_buses m"
    | kv where "reached_bus l kv = Some (derived_bus_count m l)"
    by (auto simp: reached_buses_def List.map_filter_def)
  then show ?thesis
    using assms reached_bus_range by cases auto
qed


lemma Atoi_error_in_range:
  assumes "snd (Atoi s) \<noteq> None" and "- (2 ^ 31) \<le> fst (Atoi s) sdiv 15"
    and "fst (Atoi s) sdiv 15 < 2 ^ 31"
  shows "fst (Atoi s) = 0"
proof (cases "snd (Atoi s) = Some ErrSyntax")
  case True
  then show ?thesis
    by (auto simp: Atoi_def Let_def split: list.splits prod.splits if_splits)
next
  case False
  with assms(1) have "fst (Atoi s) = 2 ^ 63 - 1 \<or> fst (Atoi s) = - (2 ^ 63)"
    by (auto simp: Atoi_def Let_def split: list.splits prod.splits if_splits)
  with assms(2,3) show ?thesis
    by (auto simp: signed_divide_int_def)
qed

lemma large_count_example:
  "migrateVSphereVirtualMachineStateV2 large_count_state example_env =
     ([CallFromUUID ''ABC-123'', CallProperties, CallDiskImportOperation],
      \<lparr>ID = ''ABC-123'',
       Attributes = Some
         [(''imported'', ''true''), (''scsi_controller_count'', ''4''),
          (''force_power_off'', ''true''), (''migrate_wait_timeout'', ''30''),
          (''shutdown_wait_timeout'', ''3''), (''wait_for_guest_net_timeout'', ''5'')]\<rparr>,
      None)"
  by (simp add: migrateVSphereVirtualMachineStateV2_def large_count_state_def example_env_def
        example_devices_def example_defaults_def eval_defs)

lemma large_count_derived:
  "disk_count_buses (Attributes large_count_state) = 2147483648"
  "reached_buses (Attributes large_count_state) example_devices = [3]"
  "derived_bus_count (Attributes large_count_state) example_devices = 2147483648"
  by (simp_all add: derived_bus_count_def disk_count_buses_def reached_buses_def
        reached_bus_def large_count_state_def example_devices_def eval_defs)

text \<open>
  Claim C2, as stated, says that the bus count is the maximum of the disk count over 15
  and the highest bus number reached. Line 109 compares a bus number with
  \<^verbatim>\<open>int32(maxBus)\<close>, which keeps the low 32 bits of \<^verbatim>\<open>maxBus\<close>. With
  \<^verbatim>\<open>disk.#\<close> at 32212254720 the disk count over 15 is \<open>2\<^sup>3\<^sup>1\<close>, the conversion
  gives \<open>- 2\<^sup>3\<^sup>1\<close>, the controller at bus 3 is taken for the higher one, and the record
  gets a \<^verbatim>\<open>scsi_controller_count\<close> of 4 where the maximum plus 1 is 2147483649.
\<close>

theorem V2_bus_count_wraps_counterexample:
  "snd (snd (migrateVSphereVirtualMachineStateV2 large_count_state example_env)) = None
   \<and> Properties example_env 7 = Inr example_devices
   \<and> derived_bus_count (Attributes large_count_state) example_devices = 2147483648
   \<and> attr_lookup (Attributes (fst (snd (migrateVSphereVirtualMachineStateV2
        large_count_state example_env)))) ''scsi_controller_count'' = Some ''4''
   \<and> Itoa (derived_bus_count (Attributes large_count_state) example_devices + 1) =
       ''2147483649''"
  unfolding large_count_example large_count_derived
  by (simp add: attr_lookup_def example_env_def Itoa_def nat_digits.simps)

text \<open>
  Claim C2, amended. When the disk count over 15 fits a signed 32-bit integer, and so does
  every number parsed from the value of a key matching \<^verbatim>\<open>disk.<index>.key\<close>, the bus
  count the step derives is the maximum of (a) the number \<^verbatim>\<open>strconv.Atoi\<close> gives for
  \<^verbatim>\<open>disk.#\<close> divided by 15 and rounded towards zero, which is 0 when the attribute is
  absent or is not parsed, and (b) the bus numbers of the SCSI controllers reached from
  the matching keys; after a successful step the attribute \<^verbatim>\<open>scsi_controller_count\<close>
  is that maximum plus 1, in decimal.
\<close>

theorem V2_scsi_controller_count:
  assumes "migrateVSphereVirtualMachineStateV2 is meta = (calls, is', None)"
    and "FromUUID meta (attr_get (Attributes is) ''uuid'') = Inr vm"
    and "Properties meta vm = Inr l"
    and "- (2 ^ 31) \<le> disk_count_buses (Attributes is)"
    and "disk_count_buses (Attributes is) < 2 ^ 31"
    and "\<forall>kv \<in> set (case Attributes is of None \<Rightarrow> [] | Some al \<Rightarrow> al).
           disk_key_MatchString (fst kv) \<longrightarrow> fst (Atoi (snd kv)) < 2 ^ 31"
  shows "v2_max_bus (Attributes is) l = derived_bus_count (Attributes is) l
         \<and> attr_lookup (Attributes is') ''scsi_controller_count'' =
             Some (Itoa (derived_bus_count (Attributes is) l + 1))
         \<and> (attr_lookup (Attributes is) ''disk.#'' = None \<or>
            snd (Atoi (attr_get (Attributes is) ''disk.#'')) \<noteq> None \<longrightarrow>
              disk_count_buses (Attributes is) = 0)"
proof -
  have mb: "v2_max_bus (Attributes is) l = derived_bus_count (Attributes is) l"
    by (rule v2_max_bus_derived [OF assms(4,5,6)])
  have "- (2 ^ 31) \<le> derived_bus_count (Attributes is) l \<and>
        derived_bus_count (Attributes is) l < 2 ^ 31"
    by (rule derived_bus_count_range [OF assms(4,5)])
  then have "- (2 ^ 63) \<le> derived_bus_count (Attributes is) l + 1 \<and>
             derived_bus_count (Attributes is) l + 1 < 2 ^ 63"
    by simp
  then have wrap: "wrap64 (derived_bus_count (Attributes is) l + 1) =
                   derived_bus_count (Attributes is) l + 1"
    unfolding wrap64_def by (intro signed_take_bit_int_eq_self) simp_all
  have "attr_lookup (Attributes is') ''scsi_controller_count'' =
          Some (Itoa (wrap64 (v2_max_bus (Attributes is) l + 1)))"
    using V2_result_cases [OF assms(1)] assms(2,3)
    by (auto simp: v2_attributes_list attr_lookup_def)
  then have count: "attr_lookup (Attributes is') ''scsi_controller_count'' =
          Some (Itoa (derived_bus_count (Attributes is) l + 1))"
    by (simp only: mb wrap)
  have "disk_count_buses (Attributes is) = 0"
    if "attr_lookup (Attributes is) ''disk.#'' = None \<or>
        snd (Atoi (attr_get (Attributes is) ''disk.#'')) \<noteq> None"
  proof -
    from that have "snd (Atoi (attr_get (Attributes is) ''disk.#'')) \<noteq> None"
      by (auto simp: attr_get_lookup Atoi_def)
    from Atoi_error_in_range [OF this] assms(4,5) show ?thesis
      by (simp add: disk_count_buses_def)
  qed
  with mb count show ?thesis by blast
qed

theorem V2_scsi_controller_count_witness:
  "snd (snd (migrateVSphereVirtualMachineStateV2 example_state example_env)) = None
   \<and> disk_count_buses (Attributes example_state) = 0
   \<and> reached_buses (Attributes example_state) example_devices = [3]
   \<and> derived_bus_count (Attributes example_state) example_devices = 3
   \<and> attr_lookup (Attributes (fst (snd (migrateVSphereVirtualMachineStateV2
        example_state example_env)))) ''scsi_controller_count'' = Some ''4''"
proof -
  have 1: "FromUUID example_env (attr_get (Attributes example_state) ''uuid'') = Inr 7"
    by (simp add: example_defs attr_get_def)
  have 2: "Properties example_env 7 = Inr example_devices"
    by (simp add: example_defs)
  have d: "disk_count_buses (Attributes example_state) = 0"
    by (simp add: disk_count_buses_def example_state_def eval_defs)
  have r: "reached_buses (Attributes example_state) example_devices = [3]"
    by (simp add: reached_buses_def reached_bus_def example_state_def example_devices_def
          eval_defs)
  have 3: "- (2 ^ 31) \<le> disk_count_buses (Attributes example_state)"
    and 4: "disk_count_buses (Attributes example_state) < 2 ^ 31"
    by (simp_all add: d)
  have 5: "\<forall>kv \<in> set (case Attributes example_state of None \<Rightarrow> [] | Some al \<Rightarrow> al).
           disk_key_MatchString (fst kv) \<longrightarrow> fst (Atoi (snd kv)) < 2 ^ 31"
    by (simp add: example_state_def eval_defs)
  have m: "derived_bus_count (Attributes example_state) example_devices = 3"
    by (simp add: derived_bus_count_def d r)
  from V2_scsi_controller_count [OF V2_example 1 2 3 4 5] show ?thesis
    unfolding V2_example by (simp add: d r m Itoa_def nat_digits.simps)
qed

end
